theory Spec2Isabelle
  imports Main
begin

section \<open>JavaScript values\<close>

text \<open>
  The values that flow through \<^verbatim>\<open>src/lib/converter.js\<close>: \<^verbatim>\<open>undefined\<close>, booleans, numbers and
  strings, and the error objects that \<^verbatim>\<open>ps-node\<close> hands to its callbacks. A string is a list
  of code units below 256; a number is an integer (the only number literal of the source
  that is a value is 600).
\<close>

datatype js_error = Error string | TypeError string

datatype jsval = JUndefined | JBool bool | JNum int | JStr string | JErr js_error

text \<open>ToBoolean, as \<^verbatim>\<open>if (v)\<close>, \<^verbatim>\<open>!v\<close> and \<^verbatim>\<open>a || b\<close> read a value.\<close>

fun truthy :: "jsval \<Rightarrow> bool" where
  "truthy JUndefined = False"
| "truthy (JBool b) = b"
| "truthy (JNum n) = (n \<noteq> 0)"
| "truthy (JStr s) = (s \<noteq> [])"
| "truthy (JErr e) = True"

text \<open>ToString, as a template literal and \<^verbatim>\<open>new Error(v)\<close> read a value.\<close>

function digits :: "nat \<Rightarrow> string" where
  "digits n = (if n < 10 then [char_of (48 + n)] else digits (n div 10) @ [char_of (48 + n mod 10)])"
  by pat_completeness auto
termination
  by (relation "measure id") auto

declare digits.simps [simp del]

fun to_string :: "jsval \<Rightarrow> string" where
  "to_string JUndefined = ''undefined''"
| "to_string (JBool b) = (if b then ''true'' else ''false'')"
| "to_string (JNum n) = (if n < 0 then ''-'' @ digits (nat (- n)) else digits (nat n))"
| "to_string (JStr s) = s"
| "to_string (JErr (Error m)) = (if m = [] then ''Error'' else ''Error: '' @ m)"
| "to_string (JErr (TypeError m)) = (if m = [] then ''TypeError'' else ''TypeError: '' @ m)"

text \<open>Reading a property of an object: a missing key reads as \<^verbatim>\<open>undefined\<close>.\<close>

definition get_prop :: "(string \<rightharpoonup> jsval) \<Rightarrow> string \<Rightarrow> jsval" where
  "get_prop obj k = (case obj k of None \<Rightarrow> JUndefined | Some v \<Rightarrow> v)"

text \<open>\<^verbatim>\<open>String.prototype.split\<close> with a one-character separator: never the empty list.\<close>

fun split :: "char \<Rightarrow> string \<Rightarrow> string list" where
  "split sep [] = [[]]"
| "split sep (c # cs) =
     (if c = sep then [] # split sep cs
      else (case split sep cs of [] \<Rightarrow> [[c]] | t # ts \<Rightarrow> (c # t) # ts))"

section \<open>The option catalog\<close>

subsection \<open>Regular expressions\<close>

text \<open>
  The fragment of JavaScript's regular expressions that \<^verbatim>\<open>regexCommandHelp\<close> (line 15) is
  written in, with its backtracking semantics: \<^verbatim>\<open>rmatch\<close> returns every way to match, the one
  the engine tries first at the head of the list. A state is the offset reached, the rest
  of the input and the capture groups set so far.
\<close>

datatype rx =
    Start                       \<comment> \<open>\<^verbatim>\<open>^\<close>\<close>
  | End                         \<comment> \<open>\<^verbatim>\<open>$\<close>\<close>
  | Chr "char \<Rightarrow> bool"          \<comment> \<open>one character of a class\<close>
  | Then rx rx
  | Optional rx                 \<comment> \<open>\<^verbatim>\<open>(?:r)?\<close>, greedy\<close>
  | Many1 "char \<Rightarrow> bool"        \<comment> \<open>\<^verbatim>\<open>c+\<close> for a class \<^verbatim>\<open>c\<close>, greedy\<close>
  | Group nat rx                \<comment> \<open>a capture group and its number\<close>

type_synonym mstate = "nat \<times> string \<times> (nat \<rightharpoonup> string)"

fun many1 :: "(char \<Rightarrow> bool) \<Rightarrow> nat \<Rightarrow> string \<Rightarrow> (nat \<times> string) list" where
  "many1 p pos [] = []"
| "many1 p pos (c # cs) = (if p c then many1 p (pos + 1) cs @ [(pos + 1, cs)] else [])"

fun rmatch :: "rx \<Rightarrow> mstate \<Rightarrow> mstate list" where
  "rmatch Start (pos, s, caps) = (if pos = 0 then [(pos, s, caps)] else [])"
| "rmatch End (pos, s, caps) = (if s = [] then [(pos, s, caps)] else [])"
| "rmatch (Chr p) (pos, s, caps) =
     (case s of [] \<Rightarrow> [] | c # cs \<Rightarrow> if p c then [(pos + 1, cs, caps)] else [])"
| "rmatch (Then a b) st = concat (map (rmatch b) (rmatch a st))"
| "rmatch (Optional a) st = rmatch a st @ [st]"
| "rmatch (Many1 p) (pos, s, caps) = map (\<lambda>(pos', s'). (pos', s', caps)) (many1 p pos s)"
| "rmatch (Group n a) (pos, s, caps) =
     map (\<lambda>(pos', s', caps'). (pos', s', caps'(n \<mapsto> take (pos' - pos) s)))
       (rmatch a (pos, s, caps))"

text \<open>
  \<^verbatim>\<open>RegExp.prototype.exec\<close>: the first match at the leftmost offset that has one; the result
  is the capture groups, a group that took no part in the match reading \<^verbatim>\<open>undefined\<close>.
\<close>

fun exec_from :: "rx \<Rightarrow> nat \<Rightarrow> string \<Rightarrow> (nat \<rightharpoonup> string) option" where
  "exec_from r pos s =
     (case rmatch r (pos, s, Map.empty) of
        (_, _, caps) # _ \<Rightarrow> Some caps
      | [] \<Rightarrow> (case s of [] \<Rightarrow> None | _ # cs \<Rightarrow> exec_from r (pos + 1) cs))"

definition exec :: "rx \<Rightarrow> string \<Rightarrow> (nat \<rightharpoonup> string) option" where
  "exec r s = exec_from r 0 s"

text \<open>The character classes of the pattern, on code units below 256.\<close>

definition is_space :: "char \<Rightarrow> bool" where
  "is_space c = (c \<in> set [CHR 0x09, CHR 0x0A, CHR 0x0B, CHR 0x0C, CHR 0x0D, CHR 0x20, CHR 0xA0])"

definition in_range :: "char \<Rightarrow> char \<Rightarrow> char \<Rightarrow> bool" where
  "in_range lo hi c = ((of_char lo :: nat) \<le> of_char c \<and> (of_char c :: nat) \<le> of_char hi)"

definition is_lower :: "char \<Rightarrow> bool" where
  "is_lower c = in_range (CHR ''a'') (CHR ''z'') c"

definition is_letter :: "char \<Rightarrow> bool" where
  "is_letter c = (is_lower c \<or> in_range (CHR ''A'') (CHR ''Z'') c)"

definition is_lower_or_eq :: "char \<Rightarrow> bool" where
  "is_lower_or_eq c = (is_lower c \<or> c = CHR ''='')"

definition dot :: "char \<Rightarrow> bool" where
  "dot c = (c \<noteq> CHR 0x0A \<and> c \<noteq> CHR 0x0D)"

definition lit :: "char \<Rightarrow> rx" where
  "lit c = Chr (\<lambda>x. x = c)"

text \<open>
  Line 15:
  \<^verbatim>\<open>/^\s+(?:\-([a-zA-Z]),\s)?--([a-z]+)(?:=([a-z=]+))\s+(.+)$/\<close>.
  The group around \<^verbatim>\<open>=([a-z=]+)\<close> carries no quantifier.
\<close>

definition regexCommandHelp :: rx where
  "regexCommandHelp =
     Then Start
    (Then (Many1 is_space)
    (Then (Optional
            (Then (lit (CHR ''-''))
            (Then (Group 1 (Chr is_letter))
            (Then (lit (CHR '',''))
                  (Chr is_space)))))
    (Then (lit (CHR ''-''))
    (Then (lit (CHR ''-''))
    (Then (Group 2 (Many1 is_lower))
    (Then (Then (lit (CHR ''='')) (Group 3 (Many1 is_lower_or_eq)))
    (Then (Many1 is_space)
    (Then (Group 4 (Many1 dot))
          End))))))))"

subsection \<open>parseHelpInfo\<close>

record descriptor =
  short :: "string option"
  option :: string
  hasValue :: bool
  isPublic :: bool

definition availableOptions :: "string list" where
  "availableOptions =
     [''export'', ''format'', ''field'', ''import'', ''filter'', ''output'', ''filter'',
      ''password'']"

text \<open>
  The body of \<^verbatim>\<open>lines.forEach\<close> (lines 78 to 92), for the descriptor it pushes onto
  \<^verbatim>\<open>options\<close>: none when the line does not match. \<^verbatim>\<open>hasValue\<close> is \<^verbatim>\<open>!!valueStr\<close>. Group 2 is
  not optional in the pattern, so a match always sets it. The usage document that the
  same loop assembles is not modelled.
\<close>

definition help_line :: "string \<Rightarrow> descriptor option" where
  "help_line line =
     (case exec regexCommandHelp line of
        None \<Rightarrow> None
      | Some result \<Rightarrow>
          (case result 2 of
             None \<Rightarrow> None
           | Some name \<Rightarrow>
               Some \<lparr> short = result 1,
                      option = name,
                      hasValue = (case result 3 of None \<Rightarrow> False | Some valueStr \<Rightarrow> valueStr \<noteq> []),
                      isPublic = (name \<in> set availableOptions) \<rparr>))"

definition parseHelpInfo :: "string \<Rightarrow> descriptor list" where
  "parseHelpInfo helpText = List.map_filter help_line (split (CHR 0x0A) helpText)"

section \<open>parseUrlCommand\<close>

definition quote :: char where
  "quote = CHR 0x27"

text \<open>Line 104: \<^verbatim>\<open>_.find(this.options, o => o.option === option || o.short === option)\<close>.\<close>

definition find_define :: "descriptor list \<Rightarrow> string \<Rightarrow> descriptor option" where
  "find_define opts opt = find (\<lambda>d. option d = opt \<or> short d = Some opt) opts"

text \<open>Lines 108 and 109: the flag token that is pushed for an option token.\<close>

definition flag :: "string \<Rightarrow> string" where
  "flag opt = (if length opt = 1 then ''-'' else ''--'') @ opt"

text \<open>
  The loop of \<^verbatim>\<open>parseUrlCommand\<close> (lines 102 to 123). The token list is \<^verbatim>\<open>list\<close> before
  \<^verbatim>\<open>list.shift()\<close>; the loop ends when the shifted token is \<^verbatim>\<open>undefined\<close> (no token left)
  or the empty string, both falsy. A value-taking option whose value is shifted from the
  empty list gets \<^verbatim>\<open>undefined\<close>.
\<close>

fun while_option ::
  "descriptor list \<Rightarrow> string list \<Rightarrow> jsval list \<Rightarrow> (string \<rightharpoonup> jsval)
    \<Rightarrow> js_error + (jsval list \<times> (string \<rightharpoonup> jsval))" where
  "while_option opts [] args options = Inr (args, options)"
| "while_option opts (opt # list) args options =
     (if opt = [] then Inr (args, options)
      else (case find_define opts opt of
        None \<Rightarrow> Inl (Error (''invalid option '' @ [quote] @ opt @ [quote]))
      | Some define \<Rightarrow>
          (if hasValue define then
             (case list of
                [] \<Rightarrow>
                  while_option opts [] (args @ [JStr (flag opt), JUndefined])
                    (options(option define \<mapsto> JUndefined))
              | value # list' \<Rightarrow>
                  while_option opts list'
                    (args @ [JStr (flag opt),
                             if option define = ''format'' \<and> value = ''txt''
                             then JStr ''text'' else JStr value])
                    (options(option define \<mapsto> JStr value)))
           else while_option opts list (args @ [JStr (flag opt)])
                  (options(option define \<mapsto> JBool True)))))"

text \<open>Lines 124 to 130: default the format and return \<^verbatim>\<open>{ args, options }\<close>.\<close>

definition return_parsed ::
  "js_error + (jsval list \<times> (string \<rightharpoonup> jsval)) \<Rightarrow> js_error + (jsval list \<times> (string \<rightharpoonup> jsval))" where
  "return_parsed r =
     (case r of
        Inl e \<Rightarrow> Inl e
      | Inr (args, options) \<Rightarrow>
          Inr (args, if \<not> truthy (get_prop options ''format'')
                     then options(''format'' \<mapsto> JStr ''pdf'') else options))"

text \<open>Lines 98 to 131.\<close>

definition parseUrlCommand ::
  "descriptor list \<Rightarrow> string \<Rightarrow> js_error + (jsval list \<times> (string \<rightharpoonup> jsval))" where
  "parseUrlCommand opts commands =
     return_parsed (while_option opts (split (CHR ''/'') commands) [] Map.empty)"

text \<open>
  Two notions the statements about the parser are written with. \<^verbatim>\<open>groups opts ts\<close>: the
  tokens \<^verbatim>\<open>ts\<close> are complete option groups, each a non-empty catalog name followed by its
  value when it takes one; the token after such a prefix is in option position.
  \<^verbatim>\<open>supplied opts ts\<close>: the long names of the options the tokens supply, in order.
\<close>

fun groups :: "descriptor list \<Rightarrow> string list \<Rightarrow> bool" where
  "groups opts [] = True"
| "groups opts (opt # list) =
     (opt \<noteq> [] \<and>
      (case find_define opts opt of
         None \<Rightarrow> False
       | Some define \<Rightarrow>
           (if hasValue define then (case list of [] \<Rightarrow> False | value # list' \<Rightarrow> groups opts list')
            else groups opts list)))"

fun supplied :: "descriptor list \<Rightarrow> string list \<Rightarrow> string list" where
  "supplied opts [] = []"
| "supplied opts (opt # list) =
     (if opt = [] then []
      else (case find_define opts opt of
        None \<Rightarrow> []
      | Some define \<Rightarrow>
          option define #
            (if hasValue define then (case list of [] \<Rightarrow> [] | value # list' \<Rightarrow> supplied opts list')
             else supplied opts list)))"

text \<open>
  An excerpt of the help text that \<^verbatim>\<open>unoconv --help\<close> prints, as a concrete input.
\<close>

definition sample_help :: string where
  "sample_help =
     ''usage: unoconv [options] file [file2 ..]'' @ [CHR 0x0A] @
     ''  -f, --format=format      specify the output format'' @ [CHR 0x0A] @
     ''  -l, --listener           start a permanent listener'' @ [CHR 0x0A] @
     ''  -o, --output=name        set output basename, filename or directory'' @ [CHR 0x0A] @
     ''      --password=string    provide a password to decrypt the document'' @ [CHR 0x0A] @
     ''  -T, --timeout=secs       timeout after secs if connection to listener fails''"

definition sample_options :: "descriptor list" where
  "sample_options =
     [\<lparr>short = Some ''f'', option = ''format'', hasValue = True, isPublic = True\<rparr>,
      \<lparr>short = Some ''o'', option = ''output'', hasValue = True, isPublic = True\<rparr>,
      \<lparr>short = None, option = ''password'', hasValue = True, isPublic = True\<rparr>,
      \<lparr>short = Some ''T'', option = ''timeout'', hasValue = True, isPublic = False\<rparr>]"

section \<open>convert\<close>

text \<open>
  What \<^verbatim>\<open>convert\<close> takes from the runtime: \<^verbatim>\<open>os.tmpdir()\<close>, \<^verbatim>\<open>path.parse(p).name\<close>, and the
  comparison \<^verbatim>\<open>s > 0\<close> of a string with a number (ToNumber on doubles). They are parameters
  of the model.
\<close>

record runtime =
  tmpdir :: string
  path_name :: "string \<Rightarrow> string"
  str_gt0 :: "string \<Rightarrow> bool"

text \<open>\<^verbatim>\<open>v > 0\<close>: \<^verbatim>\<open>undefined\<close> and objects convert to NaN, \<^verbatim>\<open>true\<close> to 1.\<close>

fun js_gt0 :: "runtime \<Rightarrow> jsval \<Rightarrow> bool" where
  "js_gt0 rt JUndefined = False"
| "js_gt0 rt (JBool b) = b"
| "js_gt0 rt (JNum n) = (0 < n)"
| "js_gt0 rt (JStr s) = str_gt0 rt s"
| "js_gt0 rt (JErr e) = False"

text \<open>
  A runtime for concrete runs: \<^verbatim>\<open>/tmp\<close> as the temporary directory, \<^verbatim>\<open>path.parse(p).name\<close> as it
  is on a path with no trailing slash whose last part has one dot, and \<^verbatim>\<open>s > 0\<close> as it is on a
  string of decimal digits.
\<close>

definition sample_runtime :: runtime where
  "sample_runtime =
     \<lparr> tmpdir = ''/tmp'',
       path_name = (\<lambda>p. takeWhile (\<lambda>c. c \<noteq> CHR ''.'') (last (split (CHR ''/'') p))),
       str_gt0 = (\<lambda>s. s \<noteq> [] \<and> list_all (in_range (CHR ''0'') (CHR ''9'')) s
                       \<and> \<not> list_all (\<lambda>c. c = CHR ''0'') s) \<rparr>"

text \<open>Lines 161 and 165: the two errors the exit handler rejects with.\<close>

definition ConversionFailed :: "string list \<Rightarrow> js_error" where
  "ConversionFailed errors = Error (concat errors)"

definition ConversionTimedOut :: "jsval \<Rightarrow> js_error" where
  "ConversionTimedOut timeout =
     Error (''No result from conversion (probably timed out after '' @ to_string timeout @ ''s)'')"

text \<open>
  Lines 138 to 150: what \<^verbatim>\<open>convert\<close> computes before it spawns the converter.
  \<^verbatim>\<open>path.parse\<close> throws a TypeError on a value that is not a string.
\<close>

record job =
  isHtml :: bool
  outputDirPath :: string
  outputFile :: string
  timeout :: jsval
  spawn_args :: "jsval list"

definition convert_job ::
  "runtime \<Rightarrow> string \<Rightarrow> jsval list \<Rightarrow> (string \<rightharpoonup> jsval) \<Rightarrow> js_error + job" where
  "convert_job rt inputFile args options =
     (let format = get_prop options ''format'';
          html = (truthy format \<and> format = JStr ''html'');
          dir = (if html then tmpdir rt @ ''/'' @ path_name rt inputFile else tmpdir rt);
          named = (if truthy (get_prop options ''output'')
                   then get_prop options ''output'' else JStr inputFile)
      in case named of
           JStr p \<Rightarrow>
             (let file = dir @ ''/'' @ path_name rt p @ ''.'' @ to_string format
              in Inr \<lparr> isHtml = html,
                       outputDirPath = dir,
                       outputFile = file,
                       timeout = (if js_gt0 rt (get_prop options ''timeout'')
                                  then get_prop options ''timeout'' else JNum 600),
                       spawn_args = args @ [JStr ''--output'', JStr file, JStr inputFile] \<rparr>)
         | _ \<Rightarrow> Inl (TypeError ''ERR_INVALID_ARG_TYPE''))"

text \<open>
  The job as a state machine (lines 153 to 196). The state holds the chunks pushed on
  \<^verbatim>\<open>errors\<close>, the promise \<^verbatim>\<open>conversion\<close>, the paths that exist on disk, the archive being
  written, the \<^verbatim>\<open>rimraf\<close> calls that have not completed and the number of calls of
  \<^verbatim>\<open>killSoffice\<close>. An event is a callback that the runtime invokes: a chunk on the child's
  standard error, the child's exit, the close of the archive's write stream, the
  completion of a removal (successful or not); \<^verbatim>\<open>Writes\<close> is the child creating a file.
  \<^verbatim>\<open>rimraf(dir, callback)\<close> returns before it has removed anything. \<^verbatim>\<open>Timer\<close> is the callback of
  the timer of lines 189 to 191: the timer is armed when the job starts, the source never
  clears it, and its callback, which runs once, calls \<^verbatim>\<open>handler.kill()\<close> without a test; the
  state counts these calls. The calls of \<^verbatim>\<open>console.log\<close> are not modelled.
\<close>

datatype promise = Pending | Resolved string | Rejected js_error

record conv =
  errors :: "string list"
  conversion :: promise
  files :: "string set"
  archive :: "string option"
  removals :: "string list"
  killSoffice_calls :: nat
  timer_armed :: bool
  kills :: nat

datatype event =
  Stderr_data string | Writes string | Exit | Archive_close | Rimraf_done bool | Timer

definition start :: "string set \<Rightarrow> conv" where
  "start fs = \<lparr> errors = [], conversion = Pending, files = fs, archive = None,
                removals = [], killSoffice_calls = 0, timer_armed = True, kills = 0 \<rparr>"

text \<open>A promise settles once; a rejection runs the handler of line 194.\<close>

definition resolve :: "string \<Rightarrow> conv \<Rightarrow> conv" where
  "resolve p st = (if conversion st = Pending then st\<lparr>conversion := Resolved p\<rparr> else st)"

definition reject :: "js_error \<Rightarrow> conv \<Rightarrow> conv" where
  "reject e st =
     (if conversion st = Pending
      then st\<lparr>conversion := Rejected e, killSoffice_calls := killSoffice_calls st + 1\<rparr>
      else st)"

definition under :: "string \<Rightarrow> string \<Rightarrow> bool" where
  "under dir p = (p = dir \<or> take (length dir + 1) p = dir @ ''/'')"

fun handle :: "job \<Rightarrow> event \<Rightarrow> conv \<Rightarrow> conv" where
  "handle j (Stderr_data error) st = st\<lparr>errors := errors st @ [error]\<rparr>"
| "handle j (Writes p) st = st\<lparr>files := insert p (files st)\<rparr>"
| "handle j Exit st =
     (if errors st \<noteq> [] then reject (ConversionFailed (errors st)) st
      else if outputFile j \<notin> files st then reject (ConversionTimedOut (timeout j)) st
      else if isHtml j then st\<lparr>archive := Some (outputDirPath j @ ''.zip'')\<rparr>
      else resolve (outputFile j) st)"
| "handle j Archive_close st =
     (case archive st of
        None \<Rightarrow> st
      | Some archiveFilePath \<Rightarrow>
          resolve archiveFilePath
            (st\<lparr>files := insert archiveFilePath (files st),
                removals := removals st @ [outputDirPath j]\<rparr>))"
| "handle j (Rimraf_done ok) st =
     (case removals st of
        [] \<Rightarrow> st
      | dir # rest \<Rightarrow>
          st\<lparr>removals := rest,
              files := (if ok then {p \<in> files st. \<not> under dir p} else files st)\<rparr>)"
| "handle j Timer st =
     (if timer_armed st then st\<lparr>timer_armed := False, kills := kills st + 1\<rparr> else st)"

definition run :: "job \<Rightarrow> event list \<Rightarrow> conv \<Rightarrow> conv" where
  "run j evs st = fold (handle j) evs st"

text \<open>The events that can come while the child runs.\<close>

fun running :: "event \<Rightarrow> bool" where
  "running (Stderr_data error) = True"
| "running (Writes p) = True"
| "running Timer = True"
| "running _ = False"

fun stderr_of :: "event list \<Rightarrow> string list" where
  "stderr_of [] = []"
| "stderr_of (Stderr_data error # evs) = error # stderr_of evs"
| "stderr_of (_ # evs) = stderr_of evs"

fun written :: "event list \<Rightarrow> string list" where
  "written [] = []"
| "written (Writes p # evs) = p # written evs"
| "written (_ # evs) = written evs"

text \<open>
  Line 191: the delay \<^verbatim>\<open>timeout * 1000\<close> that is passed to \<^verbatim>\<open>setTimeout\<close>, in milliseconds. The
  product converts its operand with ToNumber: \<^verbatim>\<open>true\<close> is 1, and \<^verbatim>\<open>undefined\<close> and an object
  are NaN, here \<^verbatim>\<open>None\<close>. What a string converts to is the runtime's, the parameter \<^verbatim>\<open>num\<close>
  (for a string that converts to an integer). What the runtime's timer does with a delay
  outside its range is not modelled.
\<close>

fun to_number :: "(string \<Rightarrow> int option) \<Rightarrow> jsval \<Rightarrow> int option" where
  "to_number num JUndefined = None"
| "to_number num (JBool b) = Some (if b then 1 else 0)"
| "to_number num (JNum n) = Some n"
| "to_number num (JStr s) = num s"
| "to_number num (JErr e) = None"

definition timer_delay :: "(string \<Rightarrow> int option) \<Rightarrow> job \<Rightarrow> int option" where
  "timer_delay num j = map_option (\<lambda>n. n * 1000) (to_number num (timeout j))"

text \<open>
  The jobs of \<^verbatim>\<open>/tmp/upload/doc.docx\<close> to pdf and to html, as \<^verbatim>\<open>convert_job\<close> computes them
  in the sample runtime.
\<close>

definition pdf_job :: job where
  "pdf_job =
     \<lparr> isHtml = False, outputDirPath = ''/tmp'', outputFile = ''/tmp/doc.pdf'',
       timeout = JNum 600,
       spawn_args = [JStr ''--format'', JStr ''pdf'', JStr ''--output'', JStr ''/tmp/doc.pdf'',
                     JStr ''/tmp/upload/doc.docx''] \<rparr>"

definition html_job :: job where
  "html_job =
     \<lparr> isHtml = True, outputDirPath = ''/tmp/doc'', outputFile = ''/tmp/doc/doc.html'',
       timeout = JNum 600,
       spawn_args = [JStr ''--format'', JStr ''html'', JStr ''--output'',
                     JStr ''/tmp/doc/doc.html'', JStr ''/tmp/upload/doc.docx''] \<rparr>"

section \<open>convertToStream\<close>

text \<open>
  Lines 201 to 223. \<^verbatim>\<open>errors\<close> is declared with \<^verbatim>\<open>const\<close> (line 209), so the assignment
  \<^verbatim>\<open>errors += data\<close> of line 213 throws a TypeError when it runs and \<^verbatim>\<open>errors\<close> stays the
  empty string. A handler that throws ends the run. The exit code is \<^verbatim>\<open>null\<close> when a signal
  ended the child.
\<close>

datatype item = Chunk string | Error_event string

record stream =
  const_errors :: string
  emitted :: "item list"
  disk :: "string set"

datatype child_event = Stdout string | Stderr string | Child_exit "int option"

definition stream_start :: "string set \<Rightarrow> stream" where
  "stream_start fs = \<lparr> const_errors = [], emitted = [], disk = fs \<rparr>"

fun code_gt0 :: "int option \<Rightarrow> bool" where
  "code_gt0 None = False"
| "code_gt0 (Some code) = (0 < code)"

fun on_child :: "string \<Rightarrow> child_event \<Rightarrow> stream \<Rightarrow> js_error + stream" where
  "on_child inputFile (Stdout data) st = Inr (st\<lparr>emitted := emitted st @ [Chunk data]\<rparr>)"
| "on_child inputFile (Stderr data) st = Inl (TypeError ''Assignment to constant variable.'')"
| "on_child inputFile (Child_exit code) st =
     (if inputFile \<notin> disk st
      then Inl (Error (''ENOENT: no such file or directory, unlink '' @ [quote] @ inputFile @ [quote]))
      else if code_gt0 code \<or> length (const_errors st) \<noteq> 0
      then Inr (st\<lparr>disk := disk st - {inputFile},
                   emitted := emitted st @ [Error_event (const_errors st)]\<rparr>)
      else Inr (st\<lparr>disk := disk st - {inputFile}\<rparr>))"

fun run_stream :: "string \<Rightarrow> child_event list \<Rightarrow> stream \<Rightarrow> js_error + stream" where
  "run_stream inputFile [] st = Inr st"
| "run_stream inputFile (ev # evs) st =
     (case on_child inputFile ev st of
        Inl e \<Rightarrow> Inl e
      | Inr st' \<Rightarrow> run_stream inputFile evs st')"

section \<open>killSoffice\<close>

text \<open>
  Lines 225 to 248. \<^verbatim>\<open>ps.lookup\<close> calls back with \<^verbatim>\<open>err\<close> and \<^verbatim>\<open>resultList\<close>; \<^verbatim>\<open>ps.kill\<close> calls
  back with \<^verbatim>\<open>err\<close>, here the function \<^verbatim>\<open>kill_err\<close> of the process id. An entry of the list
  that is falsy is \<^verbatim>\<open>None\<close>. The callbacks of \<^verbatim>\<open>ps.kill\<close> run in the order of the list; one
  that throws ends the run, as an exception that nothing catches ends the process. The
  result is the error thrown, or the ids of the processes reported killed.
\<close>

record process =
  pid :: string
  command :: string

fun kill_each :: "(string \<Rightarrow> jsval) \<Rightarrow> process option list \<Rightarrow> js_error + string list" where
  "kill_each kill_err [] = Inr []"
| "kill_each kill_err (None # resultList) = kill_each kill_err resultList"
| "kill_each kill_err (Some p # resultList) =
     (if truthy (kill_err (pid p)) then Inl (Error (to_string (kill_err (pid p))))
      else (case kill_each kill_err resultList of
              Inl e \<Rightarrow> Inl e
            | Inr killed \<Rightarrow> Inr (pid p # killed)))"

definition killSoffice ::
  "jsval \<Rightarrow> process option list \<Rightarrow> (string \<Rightarrow> jsval) \<Rightarrow> js_error + string list" where
  "killSoffice err resultList kill_err =
     (if truthy err then Inl (Error (to_string err)) else kill_each kill_err resultList)"

section \<open>Properties\<close>

subsection \<open>The parser's loop\<close>

text \<open>The accumulators only grow: a run from any \<^verbatim>\<open>args\<close> and \<^verbatim>\<open>options\<close> is the run from empty ones, appended.\<close>

lemma while_option_acc:
  "while_option opts ts a m =
     (case while_option opts ts [] Map.empty of
        Inl e \<Rightarrow> Inl e
      | Inr (a', m') \<Rightarrow> Inr (a @ a', m ++ m'))"
proof (induction "length ts" arbitrary: ts a m rule: less_induct)
  case less
  show ?case
  proof (cases ts)
    case Nil
    then show ?thesis by simp
  next
    case (Cons opt list)
    note ts = Cons
    show ?thesis
    proof (cases "opt = [] \<or> find_define opts opt = None")
      case True
      then show ?thesis using ts by auto
    next
      case False
      then obtain d where d: "opt \<noteq> []" "find_define opts opt = Some d" by auto
      show ?thesis
      proof (cases "hasValue d")
        case False
        have len: "length list < length ts" using ts by simp
        show ?thesis
          using d False ts less(1)[OF len, of "a @ [JStr (flag opt)]" "m(option d \<mapsto> JBool True)"]
            less(1)[OF len, of "[JStr (flag opt)]" "[option d \<mapsto> JBool True]"]
          by (auto split: sum.splits simp: map_add_upd_left)
      next
        case True
        show ?thesis
        proof (cases list)
          case Nil
          then show ?thesis using d True ts by simp
        next
          case (Cons v list')
          have len: "length list' < length ts" using ts Cons by simp
          show ?thesis
            using d True ts Cons
              less(1)[OF len, of "a @ [JStr (flag opt), if option d = ''format'' \<and> v = ''txt'' then JStr ''text'' else JStr v]" "m(option d \<mapsto> JStr v)"]
              less(1)[OF len, of "[JStr (flag opt), if option d = ''format'' \<and> v = ''txt'' then JStr ''text'' else JStr v]" "[option d \<mapsto> JStr v]"]
            by (auto split: sum.splits)
        qed
      qed
    qed
  qed
qed

text \<open>Complete option groups are consumed without an error, whatever follows them.\<close>

lemma groups_prefix:
  "groups opts pre \<Longrightarrow>
     \<exists>a' m'. while_option opts pre [] Map.empty = Inr (a', m') \<and>
       (\<forall>rest a m. while_option opts (pre @ rest) a m = while_option opts rest (a @ a') (m ++ m'))"
proof (induction opts pre rule: groups.induct)
  case (1 opts)
  then show ?case by simp
next
  case (2 opts opt list)
  from 2(3) obtain d where d: "opt \<noteq> []" "find_define opts opt = Some d"
    by (auto split: option.splits)
  show ?case
  proof (cases "hasValue d")
    case False
    with 2(3) d have g: "groups opts list" by simp
    from 2(2)[OF d(2) False g] obtain a' m' where
      ih: "while_option opts list [] Map.empty = Inr (a', m')"
          "\<And>rest a m. while_option opts (list @ rest) a m = while_option opts rest (a @ a') (m ++ m')"
      by blast
    have "while_option opts (opt # list) [] Map.empty
            = Inr ([JStr (flag opt)] @ a', [option d \<mapsto> JBool True] ++ m')"
      using d False ih(1)
      by (subst while_option_acc) (simp add: while_option_acc[of opts list "[JStr (flag opt)]"])
    moreover have "while_option opts ((opt # list) @ rest) a m
            = while_option opts rest (a @ [JStr (flag opt)] @ a') (m ++ ([option d \<mapsto> JBool True] ++ m'))"
      for rest a m
      using d False ih(2)[of rest "a @ [JStr (flag opt)]" "m(option d \<mapsto> JBool True)"]
      by simp
    ultimately show ?thesis by blast
  next
    case True
    with 2(3) d obtain v list' where l: "list = v # list'" and g: "groups opts list'"
      by (auto split: list.splits)
    from 2(1)[OF d(2) True l g] obtain a' m' where
      ih: "while_option opts list' [] Map.empty = Inr (a', m')"
          "\<And>rest a m. while_option opts (list' @ rest) a m = while_option opts rest (a @ a') (m ++ m')"
      by blast
    let ?x = "if option d = ''format'' \<and> v = ''txt'' then JStr ''text'' else JStr v"
    have "while_option opts (opt # list) [] Map.empty
            = Inr ([JStr (flag opt), ?x] @ a', [option d \<mapsto> JStr v] ++ m')"
      using d True l ih(1)
      by (simp add: while_option_acc[of opts list' "[JStr (flag opt), ?x]"])
    moreover have "while_option opts ((opt # list) @ rest) a m
            = while_option opts rest (a @ [JStr (flag opt), ?x] @ a') (m ++ ([option d \<mapsto> JStr v] ++ m'))"
      for rest a m
      using d True l ih(2)[of rest "a @ [JStr (flag opt), ?x]" "m(option d \<mapsto> JStr v)"]
      by simp
    ultimately show ?thesis by blast
  qed
qed

lemma supplied_dom:
  "while_option opts ts [] Map.empty = Inr (a, m) \<Longrightarrow> dom m = set (supplied opts ts)"
proof (induction opts ts arbitrary: a m rule: supplied.induct)
  case (1 opts)
  then show ?case by simp
next
  case (2 opts opt list)
  show ?case
  proof (cases "opt = []")
    case True
    with 2(3) show ?thesis by simp
  next
    case False
    with 2(3) obtain d where d: "find_define opts opt = Some d"
      by (auto split: option.splits)
    show ?thesis
    proof (cases "hasValue d")
      case nv: False
      from 2(3) False d nv obtain a' m' where
        r: "while_option opts list [] Map.empty = Inr (a', m')"
           "m = [option d \<mapsto> JBool True] ++ m'"
        by (auto simp: while_option_acc[of opts list "[JStr (flag opt)]"] split: sum.splits)
      from 2(2)[OF False d nv r(1)] r(2) show ?thesis
        using False d nv by auto
    next
      case hv: True
      show ?thesis
      proof (cases list)
        case Nil
        with 2(3) False d hv show ?thesis by (auto split: if_splits)
      next
        case (Cons v list')
        let ?x = "if option d = ''format'' \<and> v = ''txt'' then JStr ''text'' else JStr v"
        from 2(3) False d hv Cons obtain a' m' where
          r: "while_option opts list' [] Map.empty = Inr (a', m')"
             "m = [option d \<mapsto> JStr v] ++ m'"
          by (auto simp: while_option_acc[of opts list' "[JStr (flag opt), ?x]"] split: sum.splits)
        from 2(1)[OF False d hv Cons r(1)] r(2) show ?thesis
          using False d hv Cons by auto
      qed
    qed
  qed
qed

subsection \<open>The help pattern\<close>

text \<open>
  Every match of \<^verbatim>\<open>regexCommandHelp\<close> sets group 3 to a non-empty string, so every descriptor
  that \<^verbatim>\<open>parseHelpInfo\<close> builds has \<^verbatim>\<open>hasValue\<close> true.
\<close>

lemma many1_progress:
  "(p', s') \<in> set (many1 P pos s) \<Longrightarrow> pos < p' \<and> s \<noteq> []"
  by (induction P pos s rule: many1.induct) (auto split: if_splits)

lemma rmatch_value_group:
  assumes "(p', s', c') \<in> set (rmatch regexCommandHelp st)"
  shows "\<exists>v. c' 3 = Some v \<and> v \<noteq> []"
proof -
  obtain pos s c where st: "st = (pos, s, c)" by (cases st) auto
  show ?thesis
    using assms unfolding st regexCommandHelp_def lit_def
    by (auto split: if_splits list.splits dest!: many1_progress)
qed

lemma exec_from_result:
  "exec_from r pos s = Some c \<Longrightarrow> \<exists>pos' s0 p' s'. (p', s', c) \<in> set (rmatch r (pos', s0, Map.empty))"
proof (induction s arbitrary: pos)
  case Nil
  then show ?case
    by (auto split: list.splits) (metis list.set_intros(1))
next
  case (Cons x xs)
  show ?case
  proof (cases "rmatch r (pos, x # xs, Map.empty)")
    case Nil
    with Cons.prems have "exec_from r (pos + 1) xs = Some c" by simp
    from Cons.IH[OF this] show ?thesis .
  next
    case (Cons m ms)
    with Cons.prems have "\<exists>p' s'. m = (p', s', c)"
      by (cases m) auto
    with Cons show ?thesis
      by (metis list.set_intros(1))
  qed
qed

lemma help_line_hasValue: "help_line line = Some d \<Longrightarrow> hasValue d"
proof -
  assume h: "help_line line = Some d"
  then obtain result name where
    e: "exec regexCommandHelp line = Some result" and n: "result 2 = Some name"
    and d: "hasValue d = (case result 3 of None \<Rightarrow> False | Some valueStr \<Rightarrow> valueStr \<noteq> [])"
    by (auto simp: help_line_def split: option.splits)
  from exec_from_result[OF e[unfolded exec_def]] rmatch_value_group
  obtain v where "result 3 = Some v" "v \<noteq> []" by blast
  with d show ?thesis by simp
qed

lemma parseHelpInfo_hasValue: "d \<in> set (parseHelpInfo helpText) \<Longrightarrow> hasValue d"
  by (auto simp: parseHelpInfo_def map_filter_def dest: help_line_hasValue)

text \<open>
  Every name of such a descriptor is non-empty and its short name is one character, so the
  empty token matches no descriptor of a catalog that \<^verbatim>\<open>parseHelpInfo\<close> built.
\<close>

lemma rmatch_name_groups:
  assumes "(p', s', c') \<in> set (rmatch regexCommandHelp (pos, s, Map.empty))"
  shows "(\<exists>v. c' 2 = Some v \<and> v \<noteq> []) \<and> (\<forall>v. c' 1 = Some v \<longrightarrow> length v = 1)"
  using assms unfolding regexCommandHelp_def lit_def
  by (auto split: if_splits list.splits dest!: many1_progress)

lemma help_line_names:
  assumes "help_line line = Some d"
  shows "option d \<noteq> [] \<and> short d \<noteq> Some []"
proof -
  from assms obtain result name where
    e: "exec regexCommandHelp line = Some result" and n: "result 2 = Some name"
    and d: "option d = name" "short d = result 1"
    by (auto simp: help_line_def split: option.splits)
  from exec_from_result[OF e[unfolded exec_def]] rmatch_name_groups
  have "(\<exists>v. result 2 = Some v \<and> v \<noteq> []) \<and> (\<forall>v. result 1 = Some v \<longrightarrow> length v = 1)"
    by blast
  with n d show ?thesis by auto
qed

lemma find_define_empty: "find_define (parseHelpInfo helpText) [] = None"
proof -
  have "\<not> (option d = [] \<or> short d = Some [])" if "d \<in> set (parseHelpInfo helpText)" for d
    using that help_line_names[of _ d]
    by (auto simp: parseHelpInfo_def map_filter_def)
  then show ?thesis
    by (auto simp: find_define_def find_None_iff)
qed

subsection \<open>A concrete catalog\<close>

lemma parseHelpInfo_sample: "parseHelpInfo sample_help = sample_options"
  by code_simp

lemma find_sample:
  "find_define sample_options ''format'' = Some \<lparr>short = Some ''f'', option = ''format'', hasValue = True, isPublic = True\<rparr>"
  "find_define sample_options ''output'' = Some \<lparr>short = Some ''o'', option = ''output'', hasValue = True, isPublic = True\<rparr>"
  "find_define sample_options ''f'' = Some \<lparr>short = Some ''f'', option = ''format'', hasValue = True, isPublic = True\<rparr>"
  "find_define sample_options ''password'' = Some \<lparr>short = None, option = ''password'', hasValue = True, isPublic = True\<rparr>"
  "find_define sample_options ''bogus'' = None"
  "find_define sample_options [] = None"
  by (simp_all add: find_define_def sample_options_def)

subsection \<open>parseUrlCommand\<close>

text \<open>
  C4, as amended. Let the command parse, and let a token that resolves to \<^verbatim>\<open>format\<close> (its
  long or its short name) stand in option position with the value \<^verbatim>\<open>v\<close>. Then \<^verbatim>\<open>args\<close> holds
  the flag token followed by \<^verbatim>\<open>text\<close> when \<^verbatim>\<open>v\<close> is \<^verbatim>\<open>txt\<close>, and by \<^verbatim>\<open>v\<close> itself otherwise. When
  no later token supplies \<^verbatim>\<open>format\<close> again, \<^verbatim>\<open>options.format\<close> is \<^verbatim>\<open>v\<close>, untranslated: \<^verbatim>\<open>txt\<close> for
  \<^verbatim>\<open>txt\<close>, and for every other value that is not empty the string that was emitted; for
  the empty value it is the default \<^verbatim>\<open>pdf\<close>.
\<close>

theorem parseUrlCommand_format_value:
  assumes "groups opts pre" and "f \<noteq> []" and "find_define opts f = Some d"
    and "option d = ''format''" and "hasValue d"
    and "split (CHR ''/'') commands = pre @ f # v # rest"
    and "parseUrlCommand opts commands = Inr (args, options)"
  shows "(\<exists>a b. args = a @ [JStr (flag f), JStr (if v = ''txt'' then ''text'' else v)] @ b)
         \<and> (''format'' \<notin> set (supplied opts rest)
              \<longrightarrow> options ''format'' = Some (JStr (if v = [] then ''pdf'' else v)))"
proof -
  from groups_prefix[OF assms(1)] obtain a' m' where
    p: "\<And>rest a m. while_option opts (pre @ rest) a m = while_option opts rest (a @ a') (m ++ m')"
    by blast
  let ?x = "JStr (if v = ''txt'' then ''text'' else v)"
  let ?m = "\<lambda>m''. m'(''format'' \<mapsto> JStr v) ++ m''"
  have "while_option opts (split (CHR ''/'') commands) [] Map.empty
          = while_option opts rest (a' @ [JStr (flag f), ?x]) (m'(''format'' \<mapsto> JStr v))"
    using assms(2-5) p[of "f # v # rest" "[]" Map.empty] by (simp add: assms(6))
  also have "\<dots> = (case while_option opts rest [] Map.empty of
                      Inl e \<Rightarrow> Inl e
                    | Inr (a'', m'') \<Rightarrow> Inr ((a' @ [JStr (flag f), ?x]) @ a'', ?m m''))"
    by (rule while_option_acc)
  finally have w: "while_option opts (split (CHR ''/'') commands) [] Map.empty
          = (case while_option opts rest [] Map.empty of
                      Inl e \<Rightarrow> Inl e
                    | Inr (a'', m'') \<Rightarrow> Inr ((a' @ [JStr (flag f), ?x]) @ a'', ?m m''))" .
  from assms(7) w obtain a'' m'' where
    r: "while_option opts rest [] Map.empty = Inr (a'', m'')"
    and a: "args = (a' @ [JStr (flag f), ?x]) @ a''"
    and o: "options = (if \<not> truthy (get_prop (?m m'') ''format'')
                       then (?m m'')(''format'' \<mapsto> JStr ''pdf'') else ?m m'')"
    by (auto simp: parseUrlCommand_def return_parsed_def split: sum.splits)
  have "\<exists>a b. args = a @ [JStr (flag f), ?x] @ b"
    using a by auto
  moreover have "options ''format'' = Some (JStr (if v = [] then ''pdf'' else v))"
    if n: "''format'' \<notin> set (supplied opts rest)"
  proof -
    from supplied_dom[OF r] n have "m'' ''format'' = None" by auto
    then have "(?m m'') ''format'' = Some (JStr v)"
      by (simp add: map_add_def)
    with o show ?thesis by (simp add: get_prop_def)
  qed
  ultimately show ?thesis by blast
qed

text \<open>The theorem at \<^verbatim>\<open>output/a/format/txt/password/x\<close> and at \<^verbatim>\<open>f/\<close>.\<close>

theorem parseUrlCommand_format_value_witness:
  "parseUrlCommand sample_options ''output/a/format/txt/password/x''
     = Inr ([JStr ''--output'', JStr ''a'', JStr ''--format'', JStr ''text'', JStr ''--password'', JStr ''x''],
            [''output'' \<mapsto> JStr ''a'', ''format'' \<mapsto> JStr ''txt'', ''password'' \<mapsto> JStr ''x''])
   \<and> (\<exists>a b. [JStr ''--output'', JStr ''a'', JStr ''--format'', JStr ''text'', JStr ''--password'', JStr ''x'']
                = a @ [JStr ''--format'', JStr ''text''] @ b)
   \<and> [''output'' \<mapsto> JStr ''a'', ''format'' \<mapsto> JStr ''txt'', ''password'' \<mapsto> JStr ''x''] ''format''
        = Some (JStr ''txt'')
   \<and> parseUrlCommand sample_options ''f/''
        = Inr ([JStr ''-f'', JStr []], [''format'' \<mapsto> JStr ''pdf''])
   \<and> (\<exists>a b. [JStr ''-f'', JStr []] = a @ [JStr ''-f'', JStr []] @ b)
   \<and> [''format'' \<mapsto> JStr ''pdf''] ''format'' = Some (JStr ''pdf'')"
proof -
  have g: "groups sample_options [''output'', ''a'']" and g0: "groups sample_options []"
    by (simp_all add: find_sample)
  have s: "split (CHR ''/'') ''output/a/format/txt/password/x''
             = [''output'', ''a''] @ ''format'' # ''txt'' # [''password'', ''x'']"
    and s0: "split (CHR ''/'') ''f/'' = [] @ ''f'' # [] # []"
    by simp_all
  have p: "parseUrlCommand sample_options ''output/a/format/txt/password/x''
     = Inr ([JStr ''--output'', JStr ''a'', JStr ''--format'', JStr ''text'', JStr ''--password'', JStr ''x''],
            [''output'' \<mapsto> JStr ''a'', ''format'' \<mapsto> JStr ''txt'', ''password'' \<mapsto> JStr ''x''])"
    and p0: "parseUrlCommand sample_options ''f/''
        = Inr ([JStr ''-f'', JStr []], [''format'' \<mapsto> JStr ''pdf''])"
    by (simp_all add: find_sample parseUrlCommand_def return_parsed_def get_prop_def flag_def)
  have n: "''format'' \<notin> set (supplied sample_options [''password'', ''x''])"
    and n0: "''format'' \<notin> set (supplied sample_options [])"
    by (simp_all add: find_sample)
  from parseUrlCommand_format_value[OF g _ find_sample(1) _ _ s p] n
    parseUrlCommand_format_value[OF g0 _ find_sample(3) _ _ s0 p0] n0
  show ?thesis by (simp add: p p0 flag_def)
qed

text \<open>
  C4 as stated fails: a later \<^verbatim>\<open>format\<close> option overrides the stored \<^verbatim>\<open>txt\<close>, and an empty
  value is emitted as the empty string while the stored format becomes \<^verbatim>\<open>pdf\<close>.
\<close>

theorem parseUrlCommand_format_counterexample:
  "parseUrlCommand sample_options ''format/txt/format/pdf''
     = Inr ([JStr ''--format'', JStr ''text'', JStr ''--format'', JStr ''pdf''], [''format'' \<mapsto> JStr ''pdf''])
   \<and> parseUrlCommand sample_options ''format/''
     = Inr ([JStr ''--format'', JStr []], [''format'' \<mapsto> JStr ''pdf''])"
  by (simp add: find_sample parseUrlCommand_def return_parsed_def get_prop_def flag_def)

text \<open>
  C5, as amended. After complete option groups, a token that matches neither a long nor a
  short name of the catalog makes \<^verbatim>\<open>parseUrlCommand\<close> throw the error that names it, whatever
  follows, when the token is not empty; an empty token ends the loop instead, and the call
  returns what the groups before it gave, the tokens after it unread.
\<close>

theorem parseUrlCommand_unmatched_segment:
  assumes "groups opts pre" and "find_define opts t = None"
    and "split (CHR ''/'') commands = pre @ t # rest"
  shows "parseUrlCommand opts commands =
           (if t = [] then return_parsed (while_option opts pre [] Map.empty)
            else Inl (Error (''invalid option '' @ [quote] @ t @ [quote])))"
proof -
  from groups_prefix[OF assms(1)] obtain a' m' where
    p: "while_option opts pre [] Map.empty = Inr (a', m')"
       "\<And>rest a m. while_option opts (pre @ rest) a m = while_option opts rest (a @ a') (m ++ m')"
    by blast
  show ?thesis
    using assms(2) p(1) p(2)[of "t # rest" "[]" Map.empty]
    by (simp add: parseUrlCommand_def assms(3) return_parsed_def)
qed

text \<open>The theorem at \<^verbatim>\<open>format/pdf/bogus/1\<close> and at \<^verbatim>\<open>format/pdf//bogus/1\<close>.\<close>

theorem parseUrlCommand_unmatched_segment_witness:
  "parseUrlCommand sample_options ''format/pdf/bogus/1'' = Inl (Error (''invalid option '' @ [quote] @ ''bogus'' @ [quote]))
   \<and> parseUrlCommand sample_options ''format/pdf//bogus/1'' = Inr ([JStr ''--format'', JStr ''pdf''], [''format'' \<mapsto> JStr ''pdf''])"
proof -
  have g: "groups sample_options [''format'', ''pdf'']"
    by (simp add: find_sample)
  have s1: "split (CHR ''/'') ''format/pdf/bogus/1'' = [''format'', ''pdf''] @ ''bogus'' # [''1'']"
    by simp
  have s2: "split (CHR ''/'') ''format/pdf//bogus/1'' = [''format'', ''pdf''] @ [] # [''bogus'', ''1'']"
    by simp
  show ?thesis
    using parseUrlCommand_unmatched_segment[OF g find_sample(5) s1]
      parseUrlCommand_unmatched_segment[OF g find_sample(6) s2]
    by (simp add: find_sample flag_def return_parsed_def get_prop_def)
qed

text \<open>
  C5 as stated fails: in \<^verbatim>\<open>format/pdf//bogus/1\<close> the empty third segment is in option position
  and matches no name, and the call returns; \<^verbatim>\<open>bogus\<close> is never looked up.
\<close>

theorem parseUrlCommand_empty_segment_counterexample:
  "split (CHR ''/'') ''format/pdf//bogus/1'' = [''format'', ''pdf'', [], ''bogus'', ''1'']
   \<and> groups sample_options [''format'', ''pdf'']
   \<and> find_define sample_options [] = None
   \<and> find_define sample_options ''bogus'' = None
   \<and> parseUrlCommand sample_options ''format/pdf//bogus/1''
         = Inr ([JStr ''--format'', JStr ''pdf''], [''format'' \<mapsto> JStr ''pdf''])"
  by (simp add: find_sample parseUrlCommand_def return_parsed_def get_prop_def flag_def)

text \<open>
  C6. The empty command gives no arguments and the options \<^verbatim>\<open>{ format: 'pdf' }\<close>; and
  whenever a command parses and none of its tokens supplies \<^verbatim>\<open>format\<close>, the returned
  options have \<^verbatim>\<open>format\<close> set to \<^verbatim>\<open>pdf\<close>.
\<close>

theorem parseUrlCommand_default_format:
  "parseUrlCommand opts [] = Inr ([], [''format'' \<mapsto> JStr ''pdf''])
   \<and> (parseUrlCommand opts commands = Inr (args, options)
        \<longrightarrow> ''format'' \<notin> set (supplied opts (split (CHR ''/'') commands))
        \<longrightarrow> options ''format'' = Some (JStr ''pdf''))"
proof (intro conjI impI)
  show "parseUrlCommand opts [] = Inr ([], [''format'' \<mapsto> JStr ''pdf''])"
    by (simp add: parseUrlCommand_def return_parsed_def get_prop_def)
next
  assume r: "parseUrlCommand opts commands = Inr (args, options)"
    and n: "''format'' \<notin> set (supplied opts (split (CHR ''/'') commands))"
  from r obtain m where
    w: "while_option opts (split (CHR ''/'') commands) [] Map.empty = Inr (args, m)"
    and o: "options = (if \<not> truthy (get_prop m ''format'') then m(''format'' \<mapsto> JStr ''pdf'') else m)"
    by (auto simp: parseUrlCommand_def return_parsed_def split: sum.splits)
  from supplied_dom[OF w] n have "m ''format'' = None" by auto
  with o show "options ''format'' = Some (JStr ''pdf'')"
    by (simp add: get_prop_def)
qed

text \<open>The theorem at \<^verbatim>\<open>output/new.pdf\<close>.\<close>

theorem parseUrlCommand_default_format_witness:
  "parseUrlCommand sample_options [] = Inr ([], [''format'' \<mapsto> JStr ''pdf''])
   \<and> parseUrlCommand sample_options ''output/new.pdf''
        = Inr ([JStr ''--output'', JStr ''new.pdf''], [''output'' \<mapsto> JStr ''new.pdf'', ''format'' \<mapsto> JStr ''pdf''])
   \<and> ''format'' \<notin> set (supplied sample_options (split (CHR ''/'') ''output/new.pdf''))
   \<and> [''output'' \<mapsto> JStr ''new.pdf'', ''format'' \<mapsto> JStr ''pdf''] ''format'' = Some (JStr ''pdf'')"
proof -
  have p: "parseUrlCommand sample_options ''output/new.pdf''
        = Inr ([JStr ''--output'', JStr ''new.pdf''], [''output'' \<mapsto> JStr ''new.pdf'', ''format'' \<mapsto> JStr ''pdf''])"
    by (simp add: find_sample parseUrlCommand_def return_parsed_def get_prop_def flag_def)
  have n: "''format'' \<notin> set (supplied sample_options (split (CHR ''/'') ''output/new.pdf''))"
    by (simp add: find_sample)
  from parseUrlCommand_default_format[of sample_options "''output/new.pdf''"] p n
  show ?thesis by simp
qed

text \<open>
  C10. When the last token, in option position, names an option that takes a value (as
  every option of a catalog that \<^verbatim>\<open>parseHelpInfo\<close> built does, under a non-empty name),
  \<^verbatim>\<open>parseUrlCommand\<close> returns: \<^verbatim>\<open>args\<close> ends with the flag token and \<^verbatim>\<open>undefined\<close>, and the
  options hold \<^verbatim>\<open>undefined\<close> under the option's long name, except that for \<^verbatim>\<open>format\<close> the
  entry is overwritten with \<^verbatim>\<open>pdf\<close>.
\<close>

theorem parseUrlCommand_trailing_option:
  assumes "groups opts pre" and "t \<noteq> []" and "find_define opts t = Some d" and "hasValue d"
    and "split (CHR ''/'') commands = pre @ [t]"
  shows "\<exists>a options.
           parseUrlCommand opts commands = Inr (a @ [JStr (flag t), JUndefined], options)
           \<and> options (option d) = Some (if option d = ''format'' then JStr ''pdf'' else JUndefined)"
proof -
  from groups_prefix[OF assms(1)] obtain a' m' where
    p: "\<And>rest a m. while_option opts (pre @ rest) a m = while_option opts rest (a @ a') (m ++ m')"
    by blast
  show ?thesis
    using assms(2-4) p[of "[t]" "[]" Map.empty]
    by (auto simp: parseUrlCommand_def assms(5) return_parsed_def get_prop_def)
qed

text \<open>The theorem at \<^verbatim>\<open>format/pdf/output\<close> and at \<^verbatim>\<open>output/x/format\<close>.\<close>

theorem parseUrlCommand_trailing_option_witness:
  "(\<exists>a options. parseUrlCommand sample_options ''format/pdf/output'' = Inr (a @ [JStr ''--output'', JUndefined], options)
      \<and> options ''output'' = Some JUndefined)
   \<and> (\<exists>a options. parseUrlCommand sample_options ''output/x/format'' = Inr (a @ [JStr ''--format'', JUndefined], options)
      \<and> options ''format'' = Some (JStr ''pdf''))"
proof -
  have g1: "groups sample_options [''format'', ''pdf'']" and g2: "groups sample_options [''output'', ''x'']"
    by (simp_all add: find_sample)
  have s1: "split (CHR ''/'') ''format/pdf/output'' = [''format'', ''pdf''] @ [''output'']"
    and s2: "split (CHR ''/'') ''output/x/format'' = [''output'', ''x''] @ [''format'']"
    by simp_all
  show ?thesis
    using parseUrlCommand_trailing_option[OF g1 _ find_sample(2) _ s1]
      parseUrlCommand_trailing_option[OF g2 _ find_sample(1) _ s2]
    by (simp add: flag_def)
qed

subsection \<open>parseHelpInfo\<close>

text \<open>
  C7. The code at a help line that has no \<^verbatim>\<open>=value\<close> marker: the line does not match and gives
  no descriptor, where a line with the marker gives one; of the sample help text the
  \<^verbatim>\<open>--listener\<close> line is dropped.
\<close>

theorem help_line_without_value_marker:
  "help_line ''  -l, --listener           start a permanent listener'' = None
   \<and> help_line ''  -f, --format=format      specify the output format''
       = Some \<lparr>short = Some ''f'', option = ''format'', hasValue = True, isPublic = True\<rparr>
   \<and> parseHelpInfo sample_help = sample_options"
  by code_simp

subsection \<open>convert\<close>

lemma run_running:
  "list_all running evs \<Longrightarrow>
     run j evs st =
       st\<lparr>errors := errors st @ stderr_of evs, files := files st \<union> set (written evs),
          timer_armed := (timer_armed st \<and> Timer \<notin> set evs),
          kills := kills st + (if timer_armed st \<and> Timer \<in> set evs then 1 else 0)\<rparr>"
proof (induction evs arbitrary: st)
  case Nil
  then show ?case by (simp add: run_def)
next
  case (Cons ev evs)
  then show ?case
    by (cases ev) (auto simp: run_def)
qed

lemma run_append: "run j (evs @ evs') st = run j evs' (run j evs st)"
  by (simp add: run_def)

lemma convert_job_fields:
  assumes "convert_job rt inputFile args options = Inr j"
  shows "isHtml j = (get_prop options ''format'' = JStr ''html'')"
    and "outputDirPath j = (if isHtml j then tmpdir rt @ ''/'' @ path_name rt inputFile else tmpdir rt)"
    and "timeout j = (if js_gt0 rt (get_prop options ''timeout'') then get_prop options ''timeout'' else JNum 600)"
  using assms
  by (auto simp: convert_job_def Let_def split: jsval.splits if_splits)

lemma digits_600: "digits 600 = ''600''"
  by code_simp

lemma sample_pdf_job:
  "convert_job sample_runtime ''/tmp/upload/doc.docx'' [JStr ''--format'', JStr ''pdf''] [''format'' \<mapsto> JStr ''pdf'']
     = Inr \<lparr> isHtml = False, outputDirPath = ''/tmp'', outputFile = ''/tmp/doc.pdf'', timeout = JNum 600,
             spawn_args = [JStr ''--format'', JStr ''pdf'', JStr ''--output'', JStr ''/tmp/doc.pdf'', JStr ''/tmp/upload/doc.docx''] \<rparr>"
  by (simp add: convert_job_def sample_runtime_def get_prop_def Let_def)

lemma sample_html_job:
  "convert_job sample_runtime ''/tmp/upload/doc.docx'' [JStr ''--format'', JStr ''html''] [''format'' \<mapsto> JStr ''html'']
     = Inr \<lparr> isHtml = True, outputDirPath = ''/tmp/doc'', outputFile = ''/tmp/doc/doc.html'', timeout = JNum 600,
             spawn_args = [JStr ''--format'', JStr ''html'', JStr ''--output'', JStr ''/tmp/doc/doc.html'', JStr ''/tmp/upload/doc.docx''] \<rparr>"
  by (simp add: convert_job_def sample_runtime_def get_prop_def Let_def)

text \<open>
  C1. A job that \<^verbatim>\<open>convert\<close> started; the child writes chunks to standard error and creates
  files in any order, then exits. A chunk that the runtime hands to the handler is never
  empty, so a captured chunk is captured bytes. If a chunk was captured, the promise is
  rejected with the
  error whose message is the chunks concatenated, whether the output file exists or not.
  Otherwise, if the output file does not exist, it is rejected with the error whose message
  holds the resolved timeout. Otherwise it is resolved: with the output file at once, or,
  for html, with the path of the archive when the archive's stream closes.
\<close>

theorem convert_exit_checks:
  assumes "convert_job rt inputFile args options = Inr j" and "list_all running evs"
  shows "conversion (run j (evs @ [Exit]) (start fs)) =
           (if stderr_of evs \<noteq> [] then Rejected (Error (concat (stderr_of evs)))
            else if outputFile j \<notin> fs \<union> set (written evs)
            then Rejected (Error (''No result from conversion (probably timed out after '' @
                   to_string (if js_gt0 rt (get_prop options ''timeout'')
                              then get_prop options ''timeout'' else JNum 600) @ ''s)''))
            else if isHtml j then Pending
            else Resolved (outputFile j))
         \<and> (stderr_of evs = [] \<and> outputFile j \<in> fs \<union> set (written evs) \<and> isHtml j
              \<longrightarrow> conversion (run j (evs @ [Exit, Archive_close]) (start fs))
                    = Resolved (outputDirPath j @ ''.zip''))"
proof -
  have r: "run j evs (start fs) =
             (start fs)\<lparr>errors := stderr_of evs, files := fs \<union> set (written evs),
                        timer_armed := (Timer \<notin> set evs),
                        kills := (if Timer \<in> set evs then 1 else 0)\<rparr>"
    using run_running[OF assms(2), of j "start fs"] by (simp add: start_def)
  have t: "timeout j = (if js_gt0 rt (get_prop options ''timeout'') then get_prop options ''timeout'' else JNum 600)"
    by (rule convert_job_fields(3)[OF assms(1)])
  have 1: "conversion (run j (evs @ [Exit]) (start fs)) =
           (if stderr_of evs \<noteq> [] then Rejected (Error (concat (stderr_of evs)))
            else if outputFile j \<notin> fs \<union> set (written evs)
            then Rejected (Error (''No result from conversion (probably timed out after '' @
                   to_string (timeout j) @ ''s)''))
            else if isHtml j then Pending
            else Resolved (outputFile j))"
    unfolding run_append r
    by (simp add: run_def start_def reject_def resolve_def ConversionFailed_def ConversionTimedOut_def)
  have 2: "conversion (run j (evs @ [Exit, Archive_close]) (start fs)) = Resolved (outputDirPath j @ ''.zip'')"
    if "stderr_of evs = []" "outputFile j \<in> fs \<union> set (written evs)" "isHtml j"
    unfolding run_append r using that
    by (simp add: run_def start_def reject_def resolve_def)
  from 1 2 t show ?thesis by simp
qed

text \<open>The theorem at four runs of the two sample jobs.\<close>

theorem convert_exit_checks_witness:
  "conversion (run pdf_job ([Stderr_data ''Error: '', Writes ''/tmp/doc.pdf'', Stderr_data ''boom''] @ [Exit]) (start {''/tmp/upload/doc.docx''}))
     = Rejected (Error ''Error: boom'')
   \<and> conversion (run pdf_job ([] @ [Exit]) (start {''/tmp/upload/doc.docx''}))
     = Rejected (Error ''No result from conversion (probably timed out after 600s)'')
   \<and> conversion (run pdf_job ([Writes ''/tmp/doc.pdf''] @ [Exit]) (start {''/tmp/upload/doc.docx''}))
     = Resolved ''/tmp/doc.pdf''
   \<and> conversion (run html_job ([Writes ''/tmp/doc'', Writes ''/tmp/doc/doc.html''] @ [Exit, Archive_close]) (start {''/tmp/upload/doc.docx''}))
     = Resolved ''/tmp/doc.zip''"
proof -
  note pj = sample_pdf_job[folded pdf_job_def] and hj = sample_html_job[folded html_job_def]
  have f: "isHtml pdf_job = False" "outputFile pdf_job = ''/tmp/doc.pdf''" 
     "isHtml html_job = True" "outputFile html_job = ''/tmp/doc/doc.html''" "outputDirPath html_job = ''/tmp/doc''"
    by (simp_all add: pdf_job_def html_job_def)
  have 1: "list_all running [Stderr_data ''Error: '', Writes ''/tmp/doc.pdf'', Stderr_data ''boom'']"
    and 2: "list_all running []" and 3: "list_all running [Writes ''/tmp/doc.pdf'']"
    and 4: "list_all running [Writes ''/tmp/doc'', Writes ''/tmp/doc/doc.html'']"
    by simp_all
  show ?thesis
    using convert_exit_checks[OF pj 1, of "{''/tmp/upload/doc.docx''}"]
      convert_exit_checks[OF pj 2, of "{''/tmp/upload/doc.docx''}"]
      convert_exit_checks[OF pj 3, of "{''/tmp/upload/doc.docx''}"]
      convert_exit_checks[OF hj 4, of "{''/tmp/upload/doc.docx''}"]
    by (simp add: f get_prop_def digits_600)
qed

text \<open>
  C3, as amended. A conversion to html that passes the failure checks: when the archive's
  write stream closes, the promise is resolved with the path of the zip file, the path of
  the per-job directory followed by \<^verbatim>\<open>.zip\<close>, and that file exists. The removal of the
  directory has been requested and has not completed: nothing has been removed. Once the
  removal completes successfully the directory no longer exists, the archive does, and the
  promise is as it was.
\<close>

theorem convert_html_archive:
  assumes "convert_job rt inputFile args options = Inr j"
    and "get_prop options ''format'' = JStr ''html''"
    and "list_all running evs" and "stderr_of evs = []"
    and "outputFile j \<in> fs \<union> set (written evs)"
    and "st = run j (evs @ [Exit, Archive_close]) (start fs)"
    and "dir = tmpdir rt @ ''/'' @ path_name rt inputFile"
  shows "outputDirPath j = dir
         \<and> conversion st = Resolved (dir @ ''.zip'')
         \<and> files st = insert (dir @ ''.zip'') (fs \<union> set (written evs))
         \<and> removals st = [dir]
         \<and> files (handle j (Rimraf_done True) st) = {p \<in> files st. \<not> under dir p}
         \<and> dir \<notin> files (handle j (Rimraf_done True) st)
         \<and> dir @ ''.zip'' \<in> files (handle j (Rimraf_done True) st)
         \<and> conversion (handle j (Rimraf_done True) st) = Resolved (dir @ ''.zip'')"
proof -
  have h: "isHtml j" and d: "outputDirPath j = dir"
    using convert_job_fields(1,2)[OF assms(1)] assms(2,7) by simp_all
  have r: "run j evs (start fs) =
             (start fs)\<lparr>errors := stderr_of evs, files := fs \<union> set (written evs),
                        timer_armed := (Timer \<notin> set evs),
                        kills := (if Timer \<in> set evs then 1 else 0)\<rparr>"
    using run_running[OF assms(3), of j "start fs"] by (simp add: start_def)
  have st: "st = \<lparr> errors = [], conversion = Resolved (dir @ ''.zip''),
                    files = insert (dir @ ''.zip'') (fs \<union> set (written evs)),
                    archive = Some (dir @ ''.zip''), removals = [dir], killSoffice_calls = 0,
                    timer_armed = (Timer \<notin> set evs),
                    kills = (if Timer \<in> set evs then 1 else 0) \<rparr>"
    unfolding assms(6) run_append r using assms(4,5) h d
    by (simp add: run_def start_def resolve_def)
  have z: "\<not> under dir (dir @ ''.zip'')"
    by (simp add: under_def)
  show ?thesis
    using d z by (simp add: st under_def)
qed

text \<open>The theorem at the sample html job.\<close>

theorem convert_html_archive_witness:
  "conversion (run html_job ([Writes ''/tmp/doc'', Writes ''/tmp/doc/doc.html''] @ [Exit, Archive_close]) (start {''/tmp/upload/doc.docx''}))
     = Resolved ''/tmp/doc.zip''
   \<and> removals (run html_job ([Writes ''/tmp/doc'', Writes ''/tmp/doc/doc.html''] @ [Exit, Archive_close]) (start {''/tmp/upload/doc.docx''}))
     = [''/tmp/doc'']
   \<and> ''/tmp/doc'' \<notin> files (handle html_job (Rimraf_done True)
        (run html_job ([Writes ''/tmp/doc'', Writes ''/tmp/doc/doc.html''] @ [Exit, Archive_close]) (start {''/tmp/upload/doc.docx''})))"
proof -
  note hj = sample_html_job[folded html_job_def]
  have f: "outputFile html_job = ''/tmp/doc/doc.html''"
    by (simp add: html_job_def)
  have o: "get_prop [''format'' \<mapsto> JStr ''html''] ''format'' = JStr ''html''"
    by (simp add: get_prop_def)
  have 4: "list_all running [Writes ''/tmp/doc'', Writes ''/tmp/doc/doc.html'']"
    and 5: "stderr_of [Writes ''/tmp/doc'', Writes ''/tmp/doc/doc.html''] = []"
    and 6: "outputFile html_job \<in> {''/tmp/upload/doc.docx''} \<union> set (written [Writes ''/tmp/doc'', Writes ''/tmp/doc/doc.html''])"
    by (simp_all add: f)
  have d: "''/tmp/doc'' = tmpdir sample_runtime @ ''/'' @ path_name sample_runtime ''/tmp/upload/doc.docx''"
    by (simp add: sample_runtime_def)
  note t = convert_html_archive[OF hj o 4 5 6 refl d, unfolded append.simps]
  from t show ?thesis
    unfolding append.simps by blast
qed

text \<open>
  C3 as stated fails: when the promise of the sample html job is resolved, the per-job
  directory \<^verbatim>\<open>/tmp/doc\<close> still exists.
\<close>

theorem convert_html_directory_counterexample:
  "convert_job sample_runtime ''/tmp/upload/doc.docx'' [JStr ''--format'', JStr ''html''] [''format'' \<mapsto> JStr ''html'']
     = Inr html_job
   \<and> outputDirPath html_job = ''/tmp/doc''
   \<and> conversion (run html_job [Writes ''/tmp/doc'', Writes ''/tmp/doc/doc.html'', Exit, Archive_close] (start {''/tmp/upload/doc.docx''}))
     = Resolved ''/tmp/doc.zip''
   \<and> ''/tmp/doc'' \<in> files (run html_job [Writes ''/tmp/doc'', Writes ''/tmp/doc/doc.html'', Exit, Archive_close] (start {''/tmp/upload/doc.docx''}))"
  by (simp add: sample_html_job[folded html_job_def])
     (simp add: html_job_def run_def start_def resolve_def)

text \<open>No event but the timer's own callback disarms the timer or kills the child.\<close>

lemma handle_timer_fields:
  "ev \<noteq> Timer \<Longrightarrow>
     timer_armed (handle j ev st) = timer_armed st \<and> kills (handle j ev st) = kills st"
  by (cases ev) (auto simp: reject_def resolve_def split: option.splits list.splits)

lemma run_timer_fields:
  "Timer \<notin> set evs \<Longrightarrow>
     timer_armed (run j evs st) = timer_armed st \<and> kills (run j evs st) = kills st"
proof (induction evs arbitrary: st)
  case Nil
  then show ?case by (simp add: run_def)
next
  case (Cons ev evs)
  from Cons.prems have "ev \<noteq> Timer" "Timer \<notin> set evs" by auto
  from Cons.IH[OF this(2), of "handle j ev st"] handle_timer_fields[OF this(1), of j st]
  show ?case by (simp add: run_def)
qed

lemma sample_timeout_jobs:
  "convert_job sample_runtime ''/tmp/upload/doc.docx'' [JStr ''--format'', JStr ''pdf'']
       [''format'' \<mapsto> JStr ''pdf'', ''timeout'' \<mapsto> JNum 30]
     = Inr (pdf_job\<lparr>timeout := JNum 30\<rparr>)"
  "convert_job sample_runtime ''/tmp/upload/doc.docx'' [JStr ''--format'', JStr ''pdf'']
       [''format'' \<mapsto> JStr ''pdf'', ''timeout'' \<mapsto> JBool True]
     = Inr (pdf_job\<lparr>timeout := JBool True\<rparr>)"
  "convert_job sample_runtime ''/tmp/upload/doc.docx'' [JStr ''--format'', JStr ''pdf'']
       [''format'' \<mapsto> JStr ''pdf'', ''timeout'' \<mapsto> JStr ''30'']
     = Inr (pdf_job\<lparr>timeout := JStr ''30''\<rparr>)"
  by (simp_all add: convert_job_def sample_runtime_def get_prop_def Let_def pdf_job_def in_range_def)

text \<open>
  C8, as amended. The effective timeout is \<^verbatim>\<open>options.timeout\<close> when \<^verbatim>\<open>options.timeout > 0\<close> holds
  as JavaScript compares, and 600 otherwise: a positive number is kept, so is \<^verbatim>\<open>true\<close>, and so
  is a string that converts to a positive number. The delay passed to the timer is the
  timeout times 1000 milliseconds: 1000 for \<^verbatim>\<open>true\<close>, 600000 for the default. Whatever events
  came before, the exit of the child among them, the timer is still armed, nothing has
  killed the child, and the timer's callback kills it.
\<close>

theorem convert_timeout_guard:
  assumes "convert_job rt inputFile args options = Inr j"
    and "v = get_prop options ''timeout''"
  shows "timeout j = (if js_gt0 rt v then v else JNum 600)
         \<and> (v = JNum n \<and> 0 < n \<longrightarrow> timeout j = JNum n \<and> timer_delay num j = Some (n * 1000))
         \<and> (v = JBool True \<longrightarrow> timeout j = JBool True \<and> timer_delay num j = Some 1000)
         \<and> (v = JStr s \<and> str_gt0 rt s
              \<longrightarrow> timeout j = JStr s \<and> timer_delay num j = map_option (\<lambda>n. n * 1000) (num s))
         \<and> (\<not> js_gt0 rt v \<longrightarrow> timeout j = JNum 600 \<and> timer_delay num j = Some 600000)
         \<and> (Timer \<notin> set evs
              \<longrightarrow> timer_armed (run j evs (start fs))
                  \<and> kills (run j evs (start fs)) = 0
                  \<and> kills (run j (evs @ [Timer]) (start fs)) = 1)"
proof -
  have t: "timeout j = (if js_gt0 rt v then v else JNum 600)"
    using convert_job_fields(3)[OF assms(1)] assms(2) by simp
  have g: "timer_armed (run j evs (start fs)) \<and> kills (run j evs (start fs)) = 0
           \<and> kills (run j (evs @ [Timer]) (start fs)) = 1"
    if "Timer \<notin> set evs"
    using run_timer_fields[OF that, of j "start fs"]
    by (simp add: run_append) (simp add: run_def start_def)
  from t g show ?thesis
    by (auto simp: timer_delay_def)
qed

text \<open>
  The theorem at the timeouts 30, \<^verbatim>\<open>true\<close>, the string \<^verbatim>\<open>30\<close> and none, and at the timer's
  callback after the child's exit.
\<close>

theorem convert_timeout_guard_witness:
  "timeout (pdf_job\<lparr>timeout := JNum 30\<rparr>) = JNum 30
   \<and> timer_delay (\<lambda>s. None) (pdf_job\<lparr>timeout := JNum 30\<rparr>) = Some 30000
   \<and> timer_delay (\<lambda>s. None) (pdf_job\<lparr>timeout := JBool True\<rparr>) = Some 1000
   \<and> timer_delay (\<lambda>s. if s = ''30'' then Some 30 else None) (pdf_job\<lparr>timeout := JStr ''30''\<rparr>) = Some 30000
   \<and> timeout pdf_job = JNum 600
   \<and> timer_delay (\<lambda>s. None) pdf_job = Some 600000
   \<and> timer_armed (run pdf_job [Stderr_data ''boom'', Exit] (start {''/tmp/upload/doc.docx''}))
   \<and> kills (run pdf_job ([Stderr_data ''boom'', Exit] @ [Timer]) (start {''/tmp/upload/doc.docx''})) = 1"
proof -
  note pj = sample_pdf_job[folded pdf_job_def]
  have v: "JNum 30 = get_prop [''format'' \<mapsto> JStr ''pdf'', ''timeout'' \<mapsto> JNum 30] ''timeout''"
    "JBool True = get_prop [''format'' \<mapsto> JStr ''pdf'', ''timeout'' \<mapsto> JBool True] ''timeout''"
    "JStr ''30'' = get_prop [''format'' \<mapsto> JStr ''pdf'', ''timeout'' \<mapsto> JStr ''30''] ''timeout''"
    "JUndefined = get_prop [''format'' \<mapsto> JStr ''pdf''] ''timeout''"
    by (simp_all add: get_prop_def)
  have g: "str_gt0 sample_runtime ''30''"
    by (simp add: sample_runtime_def in_range_def)
  have n: "Timer \<notin> set [Stderr_data ''boom'', Exit]"
    by simp
  from convert_timeout_guard[OF sample_timeout_jobs(1) v(1), where n = 30 and num = "\<lambda>s. None"]
  have 1: "timeout (pdf_job\<lparr>timeout := JNum 30\<rparr>) = JNum 30
           \<and> timer_delay (\<lambda>s. None) (pdf_job\<lparr>timeout := JNum 30\<rparr>) = Some 30000"
    by simp
  from convert_timeout_guard[OF sample_timeout_jobs(2) v(2), where num = "\<lambda>s. None"]
  have 2: "timer_delay (\<lambda>s. None) (pdf_job\<lparr>timeout := JBool True\<rparr>) = Some 1000"
    by simp
  from convert_timeout_guard[OF sample_timeout_jobs(3) v(3), where s = "''30''"
      and num = "\<lambda>s. if s = ''30'' then Some 30 else None"] g
  have 3: "timer_delay (\<lambda>s. if s = ''30'' then Some 30 else None) (pdf_job\<lparr>timeout := JStr ''30''\<rparr>) = Some 30000"
    by simp
  from convert_timeout_guard[OF pj v(4), where num = "\<lambda>s. None"
      and evs = "[Stderr_data ''boom'', Exit]" and fs = "{''/tmp/upload/doc.docx''}"] n
  have 4: "timeout pdf_job = JNum 600 \<and> timer_delay (\<lambda>s. None) pdf_job = Some 600000
           \<and> timer_armed (run pdf_job [Stderr_data ''boom'', Exit] (start {''/tmp/upload/doc.docx''}))
           \<and> kills (run pdf_job ([Stderr_data ''boom'', Exit] @ [Timer]) (start {''/tmp/upload/doc.docx''})) = 1"
    by simp
  from 1 2 3 4 show ?thesis by blast
qed

text \<open>
  C8 as stated fails: \<^verbatim>\<open>true\<close> is not a positive number, and the effective timeout of the
  options \<^verbatim>\<open>{ timeout: true, format: 'pdf' }\<close> is \<^verbatim>\<open>true\<close>, not 600.
\<close>

theorem convert_timeout_true_counterexample:
  "convert_job sample_runtime ''/tmp/upload/doc.docx'' [] [''timeout'' \<mapsto> JBool True, ''format'' \<mapsto> JStr ''pdf'']
     = Inr \<lparr> isHtml = False, outputDirPath = ''/tmp'', outputFile = ''/tmp/doc.pdf'',
             timeout = JBool True,
             spawn_args = [JStr ''--output'', JStr ''/tmp/doc.pdf'', JStr ''/tmp/upload/doc.docx''] \<rparr>
   \<and> JBool True \<noteq> JNum 600"
  by (simp add: convert_job_def sample_runtime_def get_prop_def Let_def)

subsection \<open>convertToStream\<close>

text \<open>
  No run that ends without an exception has seen a chunk on standard error, and the only
  error event it can emit carries the empty string.
\<close>

lemma run_stream_no_text:
  "run_stream inputFile evs st = Inr st' \<Longrightarrow> const_errors st = [] \<Longrightarrow>
     const_errors st' = [] \<and> Stderr data \<notin> set evs
     \<and> set (emitted st') \<subseteq> set (emitted st) \<union> range Chunk \<union> {Error_event []}"
proof (induction evs arbitrary: st)
  case Nil
  then show ?case by auto
next
  case (Cons ev evs)
  show ?case
  proof (cases ev)
    case (Stdout d)
    with Cons.prems have "run_stream inputFile evs (st\<lparr>emitted := emitted st @ [Chunk d]\<rparr>) = Inr st'"
      by simp
    from Cons.IH[OF this] Cons.prems(2) Stdout show ?thesis by auto
  next
    case (Stderr d)
    with Cons.prems show ?thesis by simp
  next
    case (Child_exit code)
    with Cons.prems obtain st1 where
      s: "on_child inputFile ev st = Inr st1" "run_stream inputFile evs st1 = Inr st'"
      by (auto split: sum.splits)
    from s(1) Child_exit Cons.prems(2) have
      "const_errors st1 = []" "set (emitted st1) \<subseteq> set (emitted st) \<union> {Error_event []}"
      by (auto split: if_splits)
    with Cons.IH[OF s(2)] Child_exit show ?thesis by auto
  qed
qed

text \<open>
  C2. The code where the converter writes \<^verbatim>\<open>boom\<close> to standard error and exits with code 1:
  the handler of the chunk throws a TypeError. Without the chunk, the exit with code 1
  emits an error event that carries the empty string, and the exit with code 0 emits none.
\<close>

theorem convertToStream_stderr_throws:
  "run_stream ''/tmp/in.docx'' [Stdout ''%PDF'', Stderr ''boom'', Child_exit (Some 1)] (stream_start {''/tmp/in.docx''})
     = Inl (TypeError ''Assignment to constant variable.'')
   \<and> run_stream ''/tmp/in.docx'' [Stdout ''%PDF'', Child_exit (Some 1)] (stream_start {''/tmp/in.docx''})
     = Inr \<lparr> const_errors = [], emitted = [Chunk ''%PDF'', Error_event []], disk = {} \<rparr>
   \<and> run_stream ''/tmp/in.docx'' [Stdout ''%PDF'', Child_exit (Some 0)] (stream_start {''/tmp/in.docx''})
     = Inr \<lparr> const_errors = [], emitted = [Chunk ''%PDF''], disk = {} \<rparr>"
  by (simp add: stream_start_def)

subsection \<open>killSoffice\<close>

lemma kill_each_failure:
  "Some p \<in> set resultList \<Longrightarrow> truthy (kill_err (pid p)) \<Longrightarrow>
     \<exists>q. Some q \<in> set resultList \<and> truthy (kill_err (pid q))
        \<and> kill_each kill_err resultList = Inl (Error (to_string (kill_err (pid q))))"
proof (induction kill_err resultList rule: kill_each.induct)
  case (1 kill_err)
  then show ?case by simp
next
  case (2 kill_err resultList)
  then show ?case by auto
next
  case (3 kill_err p' resultList)
  show ?case
  proof (cases "truthy (kill_err (pid p'))")
    case True
    then show ?thesis by auto
  next
    case False
    with 3(2,3) have "Some p \<in> set resultList" by auto
    from 3(1)[OF False this 3(3)] obtain q where
      "Some q \<in> set resultList" "truthy (kill_err (pid q))"
      "kill_each kill_err resultList = Inl (Error (to_string (kill_err (pid q))))"
      by blast
    with False show ?thesis by auto
  qed
qed

text \<open>
  C9. When \<^verbatim>\<open>ps.lookup\<close> reports an error, the callback throws an \<^verbatim>\<open>Error\<close> made from it. When
  the lookup succeeds and \<^verbatim>\<open>ps.kill\<close> reports an error for a listed process, the run ends with
  the \<^verbatim>\<open>Error\<close> made from the error that \<^verbatim>\<open>ps.kill\<close> reported for a listed process.
\<close>

theorem killSoffice_failures:
  "(truthy err \<longrightarrow> killSoffice err resultList kill_err = Inl (Error (to_string err)))
   \<and> (\<not> truthy err \<and> Some p \<in> set resultList \<and> truthy (kill_err (pid p))
        \<longrightarrow> (\<exists>q. Some q \<in> set resultList \<and> truthy (kill_err (pid q))
               \<and> killSoffice err resultList kill_err = Inl (Error (to_string (kill_err (pid q))))))"
  using kill_each_failure[of p resultList kill_err]
  by (auto simp: killSoffice_def)

text \<open>The theorem at a failed lookup, and at a failed kill of the second of two processes.\<close>

theorem killSoffice_failures_witness:
  "killSoffice (JStr ''ps: not found'') [] (\<lambda>p. JUndefined) = Inl (Error ''ps: not found'')
   \<and> killSoffice JUndefined
        [Some \<lparr>pid = ''41'', command = ''/usr/lib/libreoffice/program/soffice.bin''\<rparr>, None,
         Some \<lparr>pid = ''42'', command = ''/usr/lib/libreoffice/program/soffice.bin''\<rparr>]
        (\<lambda>p. if p = ''42'' then JErr (Error ''Kill process timeout'') else JUndefined)
      = Inl (Error ''Error: Kill process timeout'')"
proof -
  let ?l = "[Some \<lparr>pid = ''41'', command = ''/usr/lib/libreoffice/program/soffice.bin''\<rparr>, None,
         Some \<lparr>pid = ''42'', command = ''/usr/lib/libreoffice/program/soffice.bin''\<rparr>]"
  let ?k = "\<lambda>p. if p = ''42'' then JErr (Error ''Kill process timeout'') else JUndefined"
  have a: "truthy (JStr ''ps: not found'')" by simp
  have b: "\<not> truthy JUndefined \<and> Some \<lparr>pid = ''42'', command = ''/usr/lib/libreoffice/program/soffice.bin''\<rparr> \<in> set ?l
            \<and> truthy (?k (pid \<lparr>pid = ''42'', command = ''/usr/lib/libreoffice/program/soffice.bin''\<rparr>))"
    by simp
  from killSoffice_failures[where err = "JStr ''ps: not found''" and resultList = "[]" and kill_err = "\<lambda>p. JUndefined"] a
  have 1: "killSoffice (JStr ''ps: not found'') [] (\<lambda>p. JUndefined) = Inl (Error ''ps: not found'')"
    by simp
  from killSoffice_failures[where err = JUndefined and p = "\<lparr>pid = ''42'', command = ''/usr/lib/libreoffice/program/soffice.bin''\<rparr>"
      and resultList = ?l and kill_err = ?k] b
  obtain q where "Some q \<in> set ?l" "truthy (?k (pid q))"
    "killSoffice JUndefined ?l ?k = Inl (Error (to_string (?k (pid q))))"
    by blast
  then have 2: "killSoffice JUndefined ?l ?k = Inl (Error ''Error: Kill process timeout'')"
    by (auto split: if_splits)
  from 1 2 show ?thesis by simp
qed

end
